theory Spec2Isabelle
  imports Complex_Main "HOL-Library.Multiset" "HOL-Library.Product_Lexorder"
begin

section \<open>Data model\<close>

text \<open>
  The three scripts of the repository are straight-line programs over numpy arrays and
  pandas / polars data frames.  They are embedded here as functions from the loaded
  input to the table (or to the error) that the script reaches.

  A date is the number of days since 1970-01-01, which is what a \<open>datetime64\<close> value
  stores; the range limit of the timestamp type is not modelled.  Numeric cells are exact
  numbers: the rounding of floating-point sums is not modelled.
\<close>

datatype error = ValueError | ColumnNotFoundError

text \<open>A numpy array: its shape and its elements in C (row-major) order.\<close>

record 'a ndarray =
  shape :: "nat list"
  buf :: "'a list"

definition well_shaped :: "'a ndarray \<Rightarrow> bool" where
  "well_shaped a = (length (buf a) = prod_list (shape a))"

text \<open>The loaded \<open>.npz\<close> bundle, with the three arrays that \<open>datasetup.py\<close> reads by name.\<close>

record ('d, 'a, 'b) npz =
  dates :: "'d ndarray"
  synth_sales_data :: "'a ndarray"
  fitted_line :: "'b ndarray"

text \<open>The columns that every table of the repository has: the product, the date and the
  sales quantity (column \<open>synth_sales_data\<close>, which both pipelines rename to \<open>sales\<close>).\<close>

record 'a sale =
  product_id :: nat
  date :: int
  sales :: 'a

text \<open>A row of the long-format table that \<open>datasetup.py\<close> writes and both pipelines read:
  the columns above, \<open>store_id\<close> and \<open>fitted_line\<close>.\<close>

record ('a, 'b) obs = "'a sale" +
  store_id :: nat
  fitted :: 'b

section \<open>The data materializer (datasetup.py)\<close>

text \<open>Days since 1970-01-01 of a proleptic Gregorian date, for \<open>pd.Timestamp("2025-06-01")\<close>.\<close>

definition days_from_civil :: "int \<Rightarrow> int \<Rightarrow> int \<Rightarrow> int" where
  "days_from_civil y m d =
    (let y' = (if m \<le> 2 then y - 1 else y);
         era = y' div 400;
         yoe = y' - era * 400;
         doy = (153 * (if m > 2 then m - 3 else m + 9) + 2) div 5 + d - 1;
         doe = yoe * 365 + yoe div 4 - yoe div 100 + doy
     in era * 146097 + doe - 719468)"

definition start_date :: int where
  "start_date = days_from_civil 2025 6 1"

definition arange :: "nat \<Rightarrow> nat list" where
  "arange n = [0..<n]"

definition ravel :: "'a ndarray \<Rightarrow> 'a list" where
  "ravel a = buf a"

text \<open>\<open>np.broadcast_to(a, (S, P, N)).ravel()\<close> for a three-dimensional \<open>a\<close> each of whose
  extents is 1 or the target extent: an axis of extent 1 is read at index 0.\<close>

definition bcast_index :: "nat \<Rightarrow> nat \<Rightarrow> nat" where
  "bcast_index d i = (if d = 1 then 0 else i)"

definition broadcast_ravel :: "'a ndarray \<Rightarrow> nat \<Rightarrow> nat \<Rightarrow> nat \<Rightarrow> 'a list" where
  "broadcast_ravel a S P N =
    (case shape a of
       [d0, d1, d2] \<Rightarrow>
         concat (map (\<lambda>s. concat (map (\<lambda>p. map (\<lambda>t.
           buf a ! (bcast_index d0 s * d1 * d2 + bcast_index d1 p * d2 + bcast_index d2 t))
           [0..<N]) [0..<P])) [0..<S])
     | _ \<Rightarrow> [])"

text \<open>\<open>pd.DataFrame({...})\<close> from five columns: pandas raises \<open>ValueError\<close> ("All arrays
  must be of the same length") unless the columns have one length.\<close>

fun zip_rows :: "nat list \<Rightarrow> nat list \<Rightarrow> int list \<Rightarrow> 'a list \<Rightarrow> 'b list \<Rightarrow> ('a, 'b) obs list" where
  "zip_rows (s # ss) (p # ps) (d # ds) (x # xs) (f # fs) =
     \<lparr>product_id = p, date = d, sales = x, store_id = s, fitted = f\<rparr> # zip_rows ss ps ds xs fs"
| "zip_rows _ _ _ _ _ = []"

definition DataFrame ::
  "nat list \<Rightarrow> nat list \<Rightarrow> int list \<Rightarrow> 'a list \<Rightarrow> 'b list \<Rightarrow> error + ('a, 'b) obs list" where
  "DataFrame store_col product_col date_col sales_flat fitted_flat =
    (if length product_col = length store_col \<and> length date_col = length store_col
        \<and> length sales_flat = length store_col \<and> length fitted_flat = length store_col
     then Inr (zip_rows store_col product_col date_col sales_flat fitted_flat)
     else Inl ValueError)"

text \<open>The script.  \<open>S, P, N = synth_sales_data.shape\<close> raises \<open>ValueError\<close> unless the
  array has three dimensions.  The array \<open>dates\<close> is loaded and its shape printed; nothing
  else reads it.\<close>

definition materialize :: "('d, 'a, 'b) npz \<Rightarrow> error + ('a, 'b) obs list" where
  "materialize data =
    (case shape (synth_sales_data data) of
       [S, P, N] \<Rightarrow>
         (let store_ids = \<lparr>shape = [S, 1, 1], buf = arange S\<rparr>;
              product_ids = \<lparr>shape = [1, P, 1], buf = arange P\<rparr>;
              date_ids = \<lparr>shape = [1, 1, N], buf = arange N\<rparr>;
              store_col = broadcast_ravel store_ids S P N;
              product_col = broadcast_ravel product_ids S P N;
              date_col = broadcast_ravel date_ids S P N;
              sales_flat = ravel (synth_sales_data data);
              fitted_flat = ravel (fitted_line data);
              date_strings = map (\<lambda>i. start_date + int i) date_col
          in DataFrame store_col product_col date_strings sales_flat fitted_flat)
     | _ \<Rightarrow> Inl ValueError)"

text \<open>\<open>a[s, p, t]\<close> for a three-dimensional array in C order and indices within its extents
  (the element at offset \<open>s * d1 * d2 + p * d2 + t\<close>, where \<open>d1\<close> and \<open>d2\<close> are the second and
  third extent), and \<open>a.tolist()\<close>.\<close>

definition item3 :: "'a ndarray \<Rightarrow> nat \<Rightarrow> nat \<Rightarrow> nat \<Rightarrow> 'a" where
  "item3 a s p t = buf a ! (s * (shape a ! 1) * (shape a ! 2) + p * (shape a ! 2) + t)"

definition tolist3 :: "'a ndarray \<Rightarrow> 'a list list list" where
  "tolist3 a = (case shape a of
      [d0, d1, d2] \<Rightarrow> map (\<lambda>s. map (\<lambda>p. map (\<lambda>t. item3 a s p t) [0..<d2]) [0..<d1]) [0..<d0]
    | _ \<Rightarrow> [])"

text \<open>The row that the script builds at flat position \<open>i\<close>, used to state what the zipped
  columns contain.\<close>

definition flat_row :: "('d, 'a, 'b) npz \<Rightarrow> nat \<Rightarrow> nat \<Rightarrow> nat \<Rightarrow> ('a, 'b) obs" where
  "flat_row data P N i =
     \<lparr>product_id = (i div N) mod P, date = start_date + int (i mod N),
      sales = buf (synth_sales_data data) ! i, store_id = i div (P * N), fitted = buf (fitted_line data) ! i\<rparr>"

text \<open>The inverse that the specification's round-trip property speaks of; no script of the
  repository contains it.  It follows the specification's words: group the rows of the
  long-format table by \<open>store_id\<close> and \<open>product_id\<close>, order each group by \<open>date\<close>, and
  read one column; the result is the nested list of an array with \<open>S\<close> stores and \<open>P\<close>
  products.\<close>

definition spec_reconstruct ::
  "nat \<Rightarrow> nat \<Rightarrow> ('a, 'b) obs list \<Rightarrow> (('a, 'b) obs \<Rightarrow> 'c) \<Rightarrow> 'c list list list" where
  "spec_reconstruct S P tbl col =
     map (\<lambda>s. map (\<lambda>p. map col (sort_key date
        (filter (\<lambda>r. store_id r = s \<and> product_id r = p) tbl))) [0..<P]) [0..<S]"


section \<open>The tabular pipelines (pandasuse.py, polarsuse.py)\<close>

text \<open>
  Both scripts read the long-format table with its dates parsed.  A data frame that carries
  indicator columns is a list of rows, each paired with the values of its \<open>dow_\<close> columns;
  the names of these columns are kept beside it.  In both scripts \<open>dow_columns\<close> is the list
  of the columns whose name starts with \<open>dow_\<close>, which are exactly the indicator columns.
\<close>

type_synonym 'r frame = "('r \<times> real list) list"

text \<open>\<open>.dt.dayofweek\<close> of pandas (0 is Monday, 6 is Sunday; 1970-01-01 was a Thursday) and
  \<open>.dt.weekday()\<close> of polars (1 is Monday, 7 is Sunday).\<close>

definition dayofweek :: "int \<Rightarrow> nat" where
  "dayofweek d = nat ((d + 3) mod 7)"

definition weekday :: "int \<Rightarrow> nat" where
  "weekday d = dayofweek d + 1"

text \<open>Python's \<open>str\<close> of a non-negative integer.\<close>

fun str :: "nat \<Rightarrow> string" where
  "str n = (if n < 10 then [char_of (48 + n)] else str (n div 10) @ [char_of (48 + n mod 10)])"

text \<open>The name of the indicator column of a level: the prefix \<open>dow\<close>, the separator and
  the level.\<close>

definition dummy_name :: "nat \<Rightarrow> string" where
  "dummy_name l = ''dow_'' @ str l"

definition indicator_row :: "nat list \<Rightarrow> nat \<Rightarrow> real list" where
  "indicator_row levels v = map (\<lambda>l. if v = l then 1 else 0) levels"

text \<open>\<open>pd.get_dummies(col, prefix="dow", drop_first=True).astype(float)\<close>: one column for
  each level that occurs in \<open>col\<close>, in increasing order, without the first of them.\<close>

definition get_dummies :: "nat list \<Rightarrow> string list \<times> real list list" where
  "get_dummies col =
    (let levels = tl (sort (remdups col))
     in (map dummy_name levels, map (indicator_row levels) col))"

text \<open>\<open>df.select("dow").to_dummies()\<close> of polars, on the weekday numbers cast to strings: one
  column for each value that occurs, named \<open>dow_\<close> and the value, in the order of the names
  (for numbers of one digit, the order of the numbers).\<close>

definition to_dummies :: "nat list \<Rightarrow> string list \<times> real list list" where
  "to_dummies col =
    (let levels = sort (remdups col)
     in (map dummy_name levels, map (indicator_row levels) col))"

text \<open>\<open>df.drop(c)\<close> of polars on an indicator column: \<open>ColumnNotFoundError\<close> when the frame
  has no column of that name.\<close>

definition drop_column :: "string \<Rightarrow> string list \<times> 'r frame \<Rightarrow> error + string list \<times> 'r frame" where
  "drop_column c df =
    (if c \<in> set (fst df)
     then Inr (filter (\<lambda>n. n \<noteq> c) (fst df),
               map (\<lambda>(r, vs). (r, map snd (filter (\<lambda>(n, v). n \<noteq> c) (zip (fst df) vs)))) (snd df))
     else Inl ColumnNotFoundError)"

subsection \<open>Feature engineering\<close>

definition pandas_features :: "('a, 'z) sale_scheme list \<Rightarrow> string list \<times> ('a, 'z) sale_scheme frame" where
  "pandas_features df =
    (let day_of_week = map (\<lambda>r. dayofweek (date r)) df;
         days_of_week = get_dummies day_of_week
     in (fst days_of_week, zip df (snd days_of_week)))"

definition polars_features ::
  "('a, 'z) sale_scheme list \<Rightarrow> error + string list \<times> ('a, 'z) sale_scheme frame" where
  "polars_features df =
    (let dow = map (\<lambda>r. weekday (date r)) df;
         days_of_week = to_dummies dow
     in drop_column ''dow_1'' (fst days_of_week, zip df (snd days_of_week)))"

subsection \<open>Aggregation to product-date level\<close>

definition key :: "('a, 'z) sale_scheme \<times> real list \<Rightarrow> nat \<times> int" where
  "key r = (product_id (fst r), date (fst r))"

text \<open>The aggregate of the group of a key: the sum of \<open>sales\<close> and, for every indicator
  column, the value in the first row of the group.\<close>

definition agg_group ::
  "(('a::comm_monoid_add), 'z) sale_scheme frame \<Rightarrow> nat \<times> int \<Rightarrow> 'a sale \<times> real list" where
  "agg_group df k =
    (let g = filter (\<lambda>r. key r = k) df
     in (\<lparr>product_id = fst k, date = snd k, sales = sum_list (map (\<lambda>r. sales (fst r)) g)\<rparr>,
         case g of [] \<Rightarrow> [] | r # _ \<Rightarrow> snd r))"

text \<open>\<open>df.groupby(["product_id", "date"]).agg(...).reset_index()\<close> of pandas: one row for each
  key, in increasing order of the keys.\<close>

definition pandas_groupby_agg ::
  "(('a::comm_monoid_add), 'z) sale_scheme frame \<Rightarrow> 'a sale frame" where
  "pandas_groupby_agg df = map (agg_group df) (sort (remdups (map key df)))"

text \<open>\<open>df.group_by(["product_id", "date"]).agg([...])\<close> of polars: one row for each key, in an
  order that polars leaves open; the parameter \<open>order\<close> stands for the order that the engine
  picks.\<close>

definition polars_group_by_agg ::
  "('a sale frame \<Rightarrow> 'a sale frame) \<Rightarrow> (('a::comm_monoid_add), 'z) sale_scheme frame \<Rightarrow> 'a sale frame" where
  "polars_group_by_agg order df = order (map (agg_group df) (remdups (map key df)))"

subsection \<open>Regression for each product\<close>

text \<open>
  \<open>sm.OLS(y, X).fit()\<close> is a call into statsmodels; the fitted model is represented by what
  the call receives: the names of the columns of the design matrix, its rows and the
  response.  The coefficients and p-values of the model are functions of these.  The call
  has no check of the rank of \<open>X\<close> or of the number of rows.
\<close>

record ols =
  exog_names :: "string list"
  exog :: "real list list"
  endog :: "real list"














subsection \<open>The coefficient table\<close>

text \<open>A cell of the coefficient table: the product, or the coefficient or the p-value that
  the model of that product has for a named column of its design matrix.  A row is the
  dictionary (pandas script) or the series (polars script) that the script builds, as the
  list of its items.\<close>

datatype cell = ProductId nat | Coef nat string | PValue nat string

definition pandas_coef_row :: "nat \<times> ols \<Rightarrow> (string \<times> cell) list" where
  "pandas_coef_row pm =
    (''product_id'', ProductId (fst pm))
    # map (\<lambda>k. (k, Coef (fst pm) k)) (exog_names (snd pm))
    @ map (\<lambda>k. (''p_'' @ k, PValue (fst pm) k)) (exog_names (snd pm))"

definition polars_coef_row :: "nat \<times> ols \<Rightarrow> (string \<times> cell) list" where
  "polars_coef_row pm =
    map (\<lambda>k. (k, Coef (fst pm) k)) (exog_names (snd pm)) @ [(''product_id'', ProductId (fst pm))]"

subsection \<open>The two scripts from the loaded table to the coefficient table\<close>




subsection \<open>Notions used to state the properties\<close>

text \<open>The products named in a row of the coefficient table.\<close>

fun cell_product :: "cell \<Rightarrow> nat list" where
  "cell_product (ProductId p) = [p]"
| "cell_product (Coef p k) = []"
| "cell_product (PValue p k) = []"

definition row_products :: "(string \<times> cell) list \<Rightarrow> nat list" where
  "row_products row = concat (map (\<lambda>kc. cell_product (snd kc)) row)"


text \<open>The weekdays that have an indicator column after feature engineering: in the pandas
  script all that occur but the least (numbered from 0), in the polars script all that occur
  but Monday (numbered from 1).\<close>

definition pandas_levels :: "('a, 'z) sale_scheme list \<Rightarrow> nat list" where
  "pandas_levels df = tl (sort (remdups (map (\<lambda>r. dayofweek (date r)) df)))"

definition polars_levels :: "('a, 'z) sale_scheme list \<Rightarrow> nat list" where
  "polars_levels df = filter (\<lambda>l. l \<noteq> 1) (sort (remdups (map (\<lambda>r. weekday (date r)) df)))"

text \<open>What the one-hot property asks of the indicator values \<open>vs\<close> of a row, given whether the
  date of the row falls on the baseline weekday.\<close>

definition one_hot_row :: "real list \<Rightarrow> bool \<Rightarrow> bool" where
  "one_hot_row vs on_baseline =
    ((\<forall>v\<in>set vs. v = 0 \<or> v = 1)
     \<and> (\<forall>i<length vs. \<forall>j<length vs. i \<noteq> j \<longrightarrow> \<not> (vs ! i = 1 \<and> vs ! j = 1))
     \<and> sum_list vs \<le> 1
     \<and> (sum_list vs = 1 \<longleftrightarrow> \<not> on_baseline)
     \<and> sum_list vs + (if on_baseline then 1 else 0) = 1)"

text \<open>What the aggregation step is to deliver: \<open>out\<close> has exactly one row for each key of
  \<open>df\<close>; the row holds the sum of the sales of the rows of \<open>df\<close> with that key, and its
  indicator values are those of every row of \<open>df\<close> with that key.\<close>

definition aggregates ::
  "(('a::comm_monoid_add), 'z) sale_scheme frame \<Rightarrow> 'a sale frame \<Rightarrow> bool" where
  "aggregates df out =
    (distinct (map key out) \<and> set (map key out) = key ` set df
     \<and> (\<forall>row\<in>set out.
           sales (fst row) = sum_list (map (\<lambda>r. sales (fst r)) (filter (\<lambda>r. key r = key row) df))
         \<and> (\<forall>r\<in>set df. key r = key row \<longrightarrow> snd r = snd row)))"

section \<open>Properties of the data materializer\<close>

subsection \<open>The flat position of an index triple\<close>

lemma concat_map_upt:
  "concat (map (\<lambda>k. map (g k) [0..<N]) [0..<M]) = map (\<lambda>i. g (i div N) (i mod N)) [0..<M * N]"
proof (induction M)
  case 0
  show ?case by simp
next
  case (Suc M)
  have "[0..<M * N + N] = [0..<M * N] @ [M * N..<M * N + N]"
    by (rule upt_add_eq_append) simp
  also have "[M * N..<M * N + N] = map (\<lambda>t. t + M * N) [0..<N]"
    by (simp add: map_add_upt add.commute)
  finally have split: "[0..<Suc M * N] = [0..<M * N] @ map (\<lambda>t. t + M * N) [0..<N]"
    by (simp add: add.commute)
  have blk: "map (\<lambda>i. g (i div N) (i mod N)) (map (\<lambda>t. t + M * N) [0..<N]) = map (g M) [0..<N]"
    by (rule nth_equalityI) auto
  show ?case
    using Suc.IH by (simp add: split blk del: mult_Suc)
qed

lemma mod_mult_div: "(i mod (P * N)) div N = (i div N) mod (P::nat)"
proof (cases "N = 0")
  case True
  then show ?thesis by simp
next
  case False
  have "i mod (N * P) = N * (i div N mod P) + i mod N"
    by (rule mod_mult2_eq)
  then show ?thesis using False by (simp add: mult.commute)
qed

lemma mod_mult_mod: "(i mod (P * N)) mod N = i mod (N::nat)"
  by (simp add: mod_mult2_eq mult.commute)

lemma grid_as_map:
  "concat (map (\<lambda>s. concat (map (\<lambda>p. map (\<lambda>t. f s p t) [0..<N]) [0..<P])) [0..<S])
   = map (\<lambda>i. f (i div (P * N)) ((i div N) mod P) (i mod N)) [0..<S * P * N]"
proof -
  have inner: "\<And>s. concat (map (\<lambda>p. map (\<lambda>t. f s p t) [0..<N]) [0..<P])
      = map (\<lambda>j. f s (j div N) (j mod N)) [0..<P * N]"
    by (rule concat_map_upt)
  have "concat (map (\<lambda>s. map (\<lambda>j. f s (j div N) (j mod N)) [0..<P * N]) [0..<S])
      = map (\<lambda>i. f (i div (P * N)) ((i mod (P * N)) div N) ((i mod (P * N)) mod N)) [0..<S * (P * N)]"
    by (rule concat_map_upt)
  then show ?thesis
    by (simp only: inner mod_mult_div mod_mult_mod mult.assoc)
qed

lemma bcast_index_one [simp]: "bcast_index (Suc 0) i = 0"
  by (simp add: bcast_index_def)

lemma store_col_eq:
  "broadcast_ravel \<lparr>shape = [S, 1, 1], buf = arange S\<rparr> S P N = map (\<lambda>i. i div (P * N)) [0..<S * P * N]"
proof -
  have "\<And>i. i < S * P * N \<Longrightarrow> [0..<S] ! bcast_index S (i div (P * N)) = i div (P * N)"
  proof -
    fix i assume "i < S * P * N"
    then have "i div (P * N) < S"
      by (simp add: less_mult_imp_div_less mult.assoc)
    then show "[0..<S] ! bcast_index S (i div (P * N)) = i div (P * N)"
      by (auto simp: bcast_index_def)
  qed
  then show ?thesis
    by (simp add: broadcast_ravel_def arange_def grid_as_map)
qed

lemma product_col_eq:
  "broadcast_ravel \<lparr>shape = [1, P, 1], buf = arange P\<rparr> S P N = map (\<lambda>i. (i div N) mod P) [0..<S * P * N]"
proof -
  have "\<And>i. i < S * P * N \<Longrightarrow> [0..<P] ! bcast_index P ((i div N) mod P) = (i div N) mod P"
  proof -
    fix i assume "i < S * P * N"
    then have "0 < P" by (cases P) auto
    then have "(i div N) mod P < P" by simp
    then show "[0..<P] ! bcast_index P ((i div N) mod P) = (i div N) mod P"
      by (auto simp: bcast_index_def)
  qed
  then show ?thesis
    by (simp add: broadcast_ravel_def arange_def grid_as_map)
qed

lemma date_col_eq:
  "broadcast_ravel \<lparr>shape = [1, 1, N], buf = arange N\<rparr> S P N = map (\<lambda>i. i mod N) [0..<S * P * N]"
proof -
  have "\<And>i. i < S * P * N \<Longrightarrow> [0..<N] ! bcast_index N (i mod N) = i mod N"
  proof -
    fix i assume "i < S * P * N"
    then have "0 < N" by (cases N) auto
    then have "i mod N < N" by simp
    then show "[0..<N] ! bcast_index N (i mod N) = i mod N"
      by (auto simp: bcast_index_def)
  qed
  then show ?thesis
    by (simp add: broadcast_ravel_def arange_def grid_as_map)
qed

lemmas col_eqs = store_col_eq [unfolded One_nat_def] product_col_eq [unfolded One_nat_def]
  date_col_eq [unfolded One_nat_def]

lemma zip_rows_map:
  "zip_rows (map a js) (map b js) (map c js) (map d js) (map e js)
   = map (\<lambda>i. \<lparr>product_id = b i, date = c i, sales = d i, store_id = a i, fitted = e i\<rparr>) js"
  by (induction js) simp_all

subsection \<open>What the script returns\<close>

lemma materialize_rows:
  assumes sh: "shape (synth_sales_data data) = [S, P, N]"
    and ls: "length (buf (synth_sales_data data)) = S * P * N"
    and lf: "length (buf (fitted_line data)) = S * P * N"
  shows "materialize data = Inr (map (flat_row data P N) [0..<S * P * N])"
proof -
  have xs: "buf (synth_sales_data data) = map (\<lambda>i. buf (synth_sales_data data) ! i) [0..<S * P * N]"
    using ls map_nth[of "buf (synth_sales_data data)"] by simp
  have fs: "buf (fitted_line data) = map (\<lambda>i. buf (fitted_line data) ! i) [0..<S * P * N]"
    using lf map_nth[of "buf (fitted_line data)"] by simp
  have "zip_rows (map (\<lambda>i. i div (P * N)) [0..<S * P * N]) (map (\<lambda>i. (i div N) mod P) [0..<S * P * N])
          (map (\<lambda>i. start_date + int (i mod N)) [0..<S * P * N])
          (buf (synth_sales_data data)) (buf (fitted_line data))
        = map (flat_row data P N) [0..<S * P * N]"
    unfolding flat_row_def by (subst xs, subst fs) (rule zip_rows_map)
  then show ?thesis
    using ls lf
    by (simp add: materialize_def sh Let_def col_eqs
        DataFrame_def ravel_def o_def)
qed



subsection \<open>Index arithmetic\<close>

lemma flat_index_bound:
  assumes "s < S" "p < P" "t < N"
  shows "s * P * N + p * N + t < S * P * (N::nat)"
proof -
  have "s * P + p < S * P"
  proof -
    have "s * P + p < s * P + P" using assms by simp
    also have "\<dots> = Suc s * P" by simp
    also have "\<dots> \<le> S * P" using assms by (intro mult_le_mono1) simp
    finally show ?thesis .
  qed
  then have "Suc (s * P + p) * N \<le> S * P * N"
    by (intro mult_le_mono1) simp
  moreover have "s * P * N + p * N + t < Suc (s * P + p) * N"
    using assms by (simp add: algebra_simps)
  ultimately show ?thesis by linarith
qed

lemma flat_index_div:
  assumes "p < P" "t < (N::nat)"
  shows "(s * P * N + p * N + t) div N = s * P + p"
    and "(s * P * N + p * N + t) mod N = t"
    and "(s * P * N + p * N + t) div (P * N) = s"
    and "((s * P * N + p * N + t) div N) mod P = p"
proof -
  have e: "s * P * N + p * N + t = (s * P + p) * N + t"
    by (simp add: algebra_simps)
  show d: "(s * P * N + p * N + t) div N = s * P + p"
    using assms by (simp add: e)
  show "(s * P * N + p * N + t) mod N = t"
    using assms by (simp add: e)
  have "(s * P * N + p * N + t) div (N * P) = (s * P + p) div P"
    by (simp only: div_mult2_eq d)
  then show "(s * P * N + p * N + t) div (P * N) = s"
    using assms by (simp add: mult.commute)
  show "((s * P * N + p * N + t) div N) mod P = p"
    using assms by (simp add: d)
qed

lemma filter_block:
  assumes "s < S" "p < (P::nat)"
  shows "filter (\<lambda>i. i div (P * N) = s \<and> (i div N) mod P = p) [0..<S * P * N]
       = [s * P * N + p * N..<s * P * N + p * N + N]"
proof (cases "N = 0")
  case True
  then show ?thesis by simp
next
  case False
  let ?a = "s * P * N + p * N"
  have key: "\<And>i. (i div (P * N) = s \<and> (i div N) mod P = p) \<longleftrightarrow> i div N = s * P + p"
  proof -
    fix i
    have "i div (P * N) = (i div N) div P"
      by (simp add: div_mult2_eq mult.commute)
    moreover have "((i div N) div P = s \<and> (i div N) mod P = p) \<longleftrightarrow> i div N = s * P + p"
    proof
      assume "(i div N) div P = s \<and> (i div N) mod P = p"
      then show "i div N = s * P + p"
        using div_mult_mod_eq[of "i div N" P] by simp
    next
      assume "i div N = s * P + p"
      then show "(i div N) div P = s \<and> (i div N) mod P = p"
        using assms(2) by simp
    qed
    ultimately show "(i div (P * N) = s \<and> (i div N) mod P = p) \<longleftrightarrow> i div N = s * P + p"
      by simp
  qed
  have rng: "\<And>i. i div N = s * P + p \<longleftrightarrow> ?a \<le> i \<and> i < ?a + N"
  proof -
    fix i
    have "i div N = s * P + p \<longleftrightarrow> (s * P + p) * N \<le> i \<and> i < Suc (s * P + p) * N"
    proof
      assume h: "i div N = s * P + p"
      have "i = (i div N) * N + i mod N" by simp
      moreover have "i mod N < N" using False by simp
      ultimately show "(s * P + p) * N \<le> i \<and> i < Suc (s * P + p) * N"
        unfolding h by simp
    next
      assume "(s * P + p) * N \<le> i \<and> i < Suc (s * P + p) * N"
      then show "i div N = s * P + p"
        by (intro div_nat_eqI) (simp_all add: mult.commute)
    qed
    then show "i div N = s * P + p \<longleftrightarrow> ?a \<le> i \<and> i < ?a + N"
      by (simp add: algebra_simps)
  qed
  have top: "?a + N \<le> S * P * N"
    using flat_index_bound[OF assms, of "N - 1" N] False by simp
  have "set (filter (\<lambda>i. i div (P * N) = s \<and> (i div N) mod P = p) [0..<S * P * N]) = set [?a..<?a + N]"
    using top by (auto simp: key rng)
  moreover have "sorted (filter (\<lambda>i. i div (P * N) = s \<and> (i div N) mod P = p) [0..<S * P * N])"
    by (rule sorted_wrt_filter) simp
  moreover have "distinct (filter (\<lambda>i. i div (P * N) = s \<and> (i div N) mod P = p) [0..<S * P * N])"
    by simp
  ultimately show ?thesis
    by (intro sorted_distinct_set_unique) simp_all
qed

lemma materialize_ok:
  assumes sh: "shape (synth_sales_data data) = [S, P, N]"
    and ws: "well_shaped (synth_sales_data data)"
    and wf: "well_shaped (fitted_line data)"
    and sz: "prod_list (shape (fitted_line data)) = S * P * N"
  shows "materialize data = Inr (map (flat_row data P N) [0..<S * P * N])"
  using ws wf sz by (intro materialize_rows[OF sh]) (simp_all add: well_shaped_def sh)

subsection \<open>Claims about the materializer\<close>

text \<open>
  Claim C5.  For all extents \<open>S\<close>, \<open>P\<close>, \<open>N\<close> and all arrays \<open>synth_sales_data\<close>,
  \<open>fitted_line\<close> of shape \<open>(S, P, N)\<close>, the script builds a table of \<open>S * P * N\<close> rows
  whose row at position \<open>s * P * N + p * N + t\<close> has \<open>store_id = s\<close>, \<open>product_id = p\<close>,
  the date 2025-06-01 plus \<open>t\<close> days, the observed value \<open>synth_sales_data[s, p, t]\<close> and
  the fitted value \<open>fitted_line[s, p, t]\<close>.
\<close>

theorem materialize_index_correspondence:
  assumes sh: "shape (synth_sales_data data) = [S, P, N]"
    and fh: "shape (fitted_line data) = [S, P, N]"
    and ws: "well_shaped (synth_sales_data data)"
    and wf: "well_shaped (fitted_line data)"
  shows "\<exists>tbl. materialize data = Inr tbl \<and> length tbl = S * P * N \<and>
     (\<forall>s<S. \<forall>p<P. \<forall>t<N. tbl ! (s * P * N + p * N + t) =
        \<lparr>product_id = p, date = days_from_civil 2025 6 1 + int t,
         sales = item3 (synth_sales_data data) s p t, store_id = s,
         fitted = item3 (fitted_line data) s p t\<rparr>)"
proof -
  let ?tbl = "map (flat_row data P N) [0..<S * P * N]"
  have m: "materialize data = Inr ?tbl"
    using materialize_ok[OF sh ws wf] by (simp add: fh)
  have "?tbl ! (s * P * N + p * N + t) =
        \<lparr>product_id = p, date = days_from_civil 2025 6 1 + int t,
         sales = item3 (synth_sales_data data) s p t, store_id = s,
         fitted = item3 (fitted_line data) s p t\<rparr>"
    if "s < S" "p < P" "t < N" for s p t
  proof -
    have "s * P * N + p * N + t < S * P * N"
      using that by (rule flat_index_bound)
    then have "?tbl ! (s * P * N + p * N + t) = flat_row data P N (s * P * N + p * N + t)"
      by simp
    also have "\<dots> = \<lparr>product_id = p, date = days_from_civil 2025 6 1 + int t,
         sales = item3 (synth_sales_data data) s p t, store_id = s,
         fitted = item3 (fitted_line data) s p t\<rparr>"
      using flat_index_div[OF that(2,3), of s]
      by (simp add: flat_row_def item3_def sh fh start_date_def)
    finally show ?thesis .
  qed
  with m show ?thesis by auto
qed

theorem materialize_index_correspondence_witness:
  "\<exists>tbl. materialize \<lparr>dates = \<lparr>shape = [2], buf = [20240 :: int, 20241]\<rparr>,
        synth_sales_data = \<lparr>shape = [2, 1, 2], buf = [10 :: int, 11, 12, 13]\<rparr>,
        fitted_line = \<lparr>shape = [2, 1, 2], buf = [20 :: int, 21, 22, 23]\<rparr>\<rparr> = Inr tbl
     \<and> length tbl = 4
     \<and> tbl ! 3 = \<lparr>product_id = 0, date = 20241, sales = 13, store_id = 1, fitted = 23\<rparr>"
proof -
  let ?d = "\<lparr>dates = \<lparr>shape = [2], buf = [20240 :: int, 20241]\<rparr>,
        synth_sales_data = \<lparr>shape = [2, 1, 2], buf = [10 :: int, 11, 12, 13]\<rparr>,
        fitted_line = \<lparr>shape = [2, 1, 2], buf = [20 :: int, 21, 22, 23]\<rparr>\<rparr>"
  obtain tbl where m: "materialize ?d = Inr tbl" and l: "length tbl = 2 * 1 * 2"
    and a: "\<forall>s<2. \<forall>p<1. \<forall>t<2. tbl ! (s * 1 * 2 + p * 2 + t) =
        \<lparr>product_id = p, date = days_from_civil 2025 6 1 + int t,
         sales = item3 (synth_sales_data ?d) s p t, store_id = s, fitted = item3 (fitted_line ?d) s p t\<rparr>"
    using materialize_index_correspondence[of ?d 2 1 2] by (auto simp: well_shaped_def)
  from a[rule_format, of 1 0 1]
  have "tbl ! 3 = \<lparr>product_id = 0, date = 20241, sales = 13, store_id = 1, fitted = 23\<rparr>"
    by (simp add: item3_def days_from_civil_def)
  with m l show ?thesis by simp
qed

text \<open>
  Claim C10.  The table does not depend on the array \<open>dates\<close> of the bundle: replacing it
  by any other array leaves the result of the script (table or error) unchanged.
\<close>

theorem materialize_ignores_dates:
  "materialize (data\<lparr>dates := d\<rparr>) = materialize data"
  by (simp add: materialize_def split: list.split)




lemma reconstruct_rows:
  assumes "\<And>s p. s < S \<Longrightarrow> p < P \<Longrightarrow>
     sort_key date (filter (\<lambda>r. store_id r = s \<and> product_id r = p) tbl) = map (row s p) [0..<N]"
  shows "spec_reconstruct S P tbl col
     = map (\<lambda>s. map (\<lambda>p. map (\<lambda>t. col (row s p t)) [0..<N]) [0..<P]) [0..<S]"
  using assms by (simp add: spec_reconstruct_def o_def)

text \<open>
  Claim C7.  For arrays of one shape \<open>(S, P, N)\<close>, grouping the rows of the script's table
  by \<open>store_id\<close> and \<open>product_id\<close> and ordering each group by \<open>date\<close> gives back
  \<open>synth_sales_data\<close> from the column of observed values and \<open>fitted_line\<close> from the
  column of fitted values.
\<close>

theorem roundtrip:
  fixes data :: "('d, 'a, 'b) npz"
  assumes sh: "shape (synth_sales_data data) = [S, P, N]"
    and fh: "shape (fitted_line data) = [S, P, N]"
    and ws: "well_shaped (synth_sales_data data)"
    and wf: "well_shaped (fitted_line data)"
  shows "\<exists>tbl. materialize data = Inr tbl
     \<and> spec_reconstruct S P tbl sales = tolist3 (synth_sales_data data)
     \<and> spec_reconstruct S P tbl fitted = tolist3 (fitted_line data)"
proof -
  let ?tbl = "map (flat_row data P N) [0..<S * P * N]"
  have m: "materialize data = Inr ?tbl"
    using materialize_ok[OF sh ws wf] by (simp add: fh)
  have grp: "sort_key date (filter (\<lambda>r. store_id r = s \<and> product_id r = p) ?tbl)
      = map (\<lambda>t. flat_row data P N (s * P * N + p * N + t)) [0..<N]"
    if "s < S" "p < P" for s p
  proof -
    have "filter (\<lambda>r. store_id r = s \<and> product_id r = p) ?tbl
        = map (flat_row data P N) (filter (\<lambda>i. i div (P * N) = s \<and> (i div N) mod P = p) [0..<S * P * N])"
      by (simp add: filter_map o_def flat_row_def)
    also have "\<dots> = map (flat_row data P N) [s * P * N + p * N..<s * P * N + p * N + N]"
      by (simp only: filter_block[OF that])
    also have "\<dots> = map (flat_row data P N) (map (\<lambda>t. t + (s * P * N + p * N)) [0..<N])"
      by (simp only: map_add_upt add.commute)
    also have "\<dots> = map (\<lambda>t. flat_row data P N (s * P * N + p * N + t)) [0..<N]"
      by (simp add: o_def add.commute)
    finally have f: "filter (\<lambda>r. store_id r = s \<and> product_id r = p) ?tbl
        = map (\<lambda>t. flat_row data P N (s * P * N + p * N + t)) [0..<N]" .
    have dm: "map date (map (\<lambda>t. flat_row data P N (s * P * N + p * N + t)) [0..<N])
        = map (\<lambda>t. start_date + int t) [0..<N]"
      using flat_index_div(2)[OF that(2), of _ N s] by (simp add: flat_row_def)
    have "sorted (map date (map (\<lambda>t. flat_row data P N (s * P * N + p * N + t)) [0..<N]))"
      unfolding dm by (simp add: sorted_map sorted_wrt_iff_nth_less)
    then show ?thesis
      unfolding f by (rule sort_key_id_if_sorted)
  qed
  have "spec_reconstruct S P ?tbl sales = tolist3 (synth_sales_data data)"
    by (simp add: reconstruct_rows[of S P ?tbl, OF grp] tolist3_def sh item3_def flat_row_def)
  moreover have "spec_reconstruct S P ?tbl fitted = tolist3 (fitted_line data)"
    by (simp add: reconstruct_rows[of S P ?tbl, OF grp] tolist3_def fh item3_def flat_row_def)
  ultimately have "spec_reconstruct S P ?tbl sales = tolist3 (synth_sales_data data)
      \<and> spec_reconstruct S P ?tbl fitted = tolist3 (fitted_line data)"
    by simp
  with m show ?thesis by blast
qed

theorem roundtrip_witness:
  "\<exists>tbl. materialize \<lparr>dates = \<lparr>shape = [2], buf = [20240 :: int, 20241]\<rparr>,
        synth_sales_data = \<lparr>shape = [2, 1, 2], buf = [10 :: int, 11, 12, 13]\<rparr>,
        fitted_line = \<lparr>shape = [2, 1, 2], buf = [20 :: int, 21, 22, 23]\<rparr>\<rparr> = Inr tbl
     \<and> spec_reconstruct 2 1 tbl sales = [[[10, 11]], [[12, 13]]]
     \<and> spec_reconstruct 2 1 tbl fitted = [[[20, 21]], [[22, 23]]]"
proof -
  let ?d = "\<lparr>dates = \<lparr>shape = [2], buf = [20240 :: int, 20241]\<rparr>,
        synth_sales_data = \<lparr>shape = [2, 1, 2], buf = [10 :: int, 11, 12, 13]\<rparr>,
        fitted_line = \<lparr>shape = [2, 1, 2], buf = [20 :: int, 21, 22, 23]\<rparr>\<rparr>"
  have s: "tolist3 (synth_sales_data ?d) = [[[10, 11]], [[12, 13]]]"
    by code_simp
  have f: "tolist3 (fitted_line ?d) = [[[20, 21]], [[22, 23]]]"
    by code_simp
  show ?thesis
    using roundtrip[of ?d 2 1 2] unfolding s f by (simp add: well_shaped_def)
qed

section \<open>Properties of the pipelines\<close>

subsection \<open>Indicator rows\<close>

lemma indicator_row_length [simp]: "length (indicator_row ls v) = length ls"
  by (simp add: indicator_row_def)

lemma indicator_row_01: "x \<in> set (indicator_row ls v) \<Longrightarrow> x = 0 \<or> x = 1"
  by (auto simp: indicator_row_def)

lemma indicator_row_nth: "i < length ls \<Longrightarrow> indicator_row ls v ! i = (if v = ls ! i then 1 else 0)"
  by (simp add: indicator_row_def)

lemma indicator_row_sum:
  "distinct ls \<Longrightarrow> sum_list (indicator_row ls v) = (if v \<in> set ls then 1 else 0)"
  by (induction ls) (auto simp: indicator_row_def)

lemma indicator_row_exclusive:
  assumes "distinct ls" "i < length ls" "j < length ls" "i \<noteq> j"
  shows "\<not> (indicator_row ls v ! i = 1 \<and> indicator_row ls v ! j = 1)"
  using assms by (auto simp: indicator_row_nth nth_eq_iff_index_eq)


subsection \<open>Levels\<close>

lemma sort_remdups_Cons:
  fixes xs :: "nat list"
  assumes "xs \<noteq> []"
  shows "sort (remdups xs) = Min (set xs) # tl (sort (remdups xs))"
    and "set (tl (sort (remdups xs))) = set xs - {Min (set xs)}"
    and "distinct (tl (sort (remdups xs)))"
    and "sorted (tl (sort (remdups xs)))"
proof -
  let ?ys = "sort (remdups xs)"
  have s: "sorted ?ys" and d: "distinct ?ys" and e: "set ?ys = set xs"
    by simp_all
  from assms e have "?ys \<noteq> []" by (metis set_empty)
  then obtain y ys' where c: "?ys = y # ys'" by (cases ?ys) auto
  from s c have le: "\<forall>z\<in>set ys'. y \<le> z" by simp
  from e c have ymem: "y \<in> set xs" by (metis list.set_intros(1))
  have "\<And>z. z \<in> set xs \<Longrightarrow> y \<le> z"
    using le e c by (metis order_refl set_ConsD)
  with ymem have m: "Min (set xs) = y"
    by (intro Min_eqI) simp_all
  show "sort (remdups xs) = Min (set xs) # tl (sort (remdups xs))"
    by (simp add: c m)
  from d c have "y \<notin> set ys'" and dy: "distinct ys'" by simp_all
  then have "set ys' = set xs - {y}"
    using e c by (metis Diff_insert_absorb list.simps(15))
  then show "set (tl (sort (remdups xs))) = set xs - {Min (set xs)}"
    by (simp add: c m)
  show "distinct (tl (sort (remdups xs)))" by (simp add: c dy)
  show "sorted (tl (sort (remdups xs)))" using s by (simp add: c)
qed

lemma pandas_levels_distinct: "distinct (pandas_levels df)"
  by (simp add: pandas_levels_def distinct_tl)

lemma pandas_levels_set:
  "df \<noteq> [] \<Longrightarrow> set (pandas_levels df) =
     (\<lambda>r. dayofweek (date r)) ` set df - {Min ((\<lambda>r. dayofweek (date r)) ` set df)}"
  using sort_remdups_Cons(2)[of "map (\<lambda>r. dayofweek (date r)) df"]
  by (simp add: pandas_levels_def)

lemma polars_levels_distinct: "distinct (polars_levels df)"
  by (simp add: polars_levels_def)

lemma polars_levels_set:
  "set (polars_levels df) = (\<lambda>r. weekday (date r)) ` set df - {1}"
  by (auto simp: polars_levels_def)

subsection \<open>Names of the indicator columns\<close>

lemma str_not_Nil: "str n \<noteq> []"
  by (subst str.simps) simp

lemma str_eq_1: "str n = ''1'' \<longleftrightarrow> n = 1"
proof (cases "n < 10")
  case True
  have c: "CHR ''1'' = char_of (49 :: nat)"
    by code_simp
  have s: "str n = [char_of (48 + n)]"
    using True by (subst str.simps) simp
  have "of_char (char_of (48 + n)) = 48 + n" "of_char (char_of (49 :: nat)) = (49 :: nat)"
    using True by simp_all
  then have "char_of (48 + n) = char_of (49 :: nat) \<longleftrightarrow> 48 + n = (49 :: nat)"
    by metis
  then show ?thesis
    unfolding s by (simp only: c list.inject) auto
next
  case False
  then have "str n = str (n div 10) @ [char_of (48 + n mod 10)]"
    by (subst str.simps) simp
  moreover have "length (str (n div 10)) \<ge> 1"
    using str_not_Nil[of "n div 10"] by (cases "str (n div 10)") auto
  ultimately have "length (str n) \<ge> 2" by simp
  then show ?thesis using False by auto
qed

lemma dummy_name_eq_1 [simp]:
  "dummy_name l = ''dow_1'' \<longleftrightarrow> l = Suc 0"
  "''dow_1'' = dummy_name l \<longleftrightarrow> l = Suc 0"
  using str_eq_1[of l] by (auto simp: dummy_name_def)

declare str.simps [simp del]

subsection \<open>The feature-engineered frames\<close>

lemma zip_map_same: "zip xs (map f xs) = map (\<lambda>x. (x, f x)) xs"
  by (induction xs) simp_all

lemma pandas_features_eq:
  "pandas_features df =
     (map dummy_name (pandas_levels df),
      map (\<lambda>r. (r, indicator_row (pandas_levels df) (dayofweek (date r)))) df)"
  using zip_map_same[of df "\<lambda>r. indicator_row (pandas_levels df) (dayofweek (date r))"]
  by (simp add: pandas_features_def get_dummies_def pandas_levels_def Let_def o_def)

lemma drop_dummy_values:
  "map snd (filter (\<lambda>(n, v). n \<noteq> ''dow_1'') (zip (map dummy_name ls) (indicator_row ls v)))
   = indicator_row (filter (\<lambda>l. l \<noteq> 1) ls) v"
  by (induction ls) (simp_all add: indicator_row_def)

lemma drop_dummy_names:
  "filter (\<lambda>n. n \<noteq> ''dow_1'') (map dummy_name ls)
   = map dummy_name (filter (\<lambda>l. l \<noteq> 1) ls)"
  by (induction ls) simp_all

lemma dummy_name_mem: "''dow_1'' \<in> set (map dummy_name ls) \<longleftrightarrow> 1 \<in> set ls"
  by (induction ls) auto

lemma polars_features_eq:
  "polars_features df =
     (if 1 \<in> (\<lambda>r. weekday (date r)) ` set df
      then Inr (map dummy_name (polars_levels df),
                map (\<lambda>r. (r, indicator_row (polars_levels df) (weekday (date r)))) df)
      else Inl ColumnNotFoundError)"
proof -
  let ?ls = "sort (remdups (map (\<lambda>r. weekday (date r)) df))"
  have z: "zip df (map (indicator_row ?ls) (map (\<lambda>r. weekday (date r)) df))
      = map (\<lambda>r. (r, indicator_row ?ls (weekday (date r)))) df"
    using zip_map_same[of df "\<lambda>r. indicator_row ?ls (weekday (date r))"] by (simp add: o_def)
  have m: "''dow_1'' \<in> set (map dummy_name ?ls) \<longleftrightarrow> 1 \<in> (\<lambda>r. weekday (date r)) ` set df"
    by (simp only: dummy_name_mem) simp
  show ?thesis
    unfolding polars_features_def to_dummies_def Let_def fst_conv snd_conv z drop_column_def m
    by (simp add: drop_dummy_names drop_dummy_values polars_levels_def o_def)
qed

lemma pandas_row_one_hot:
  assumes "r \<in> set df"
  shows "one_hot_row (indicator_row (pandas_levels df) (dayofweek (date r)))
           (dayofweek (date r) = Min ((\<lambda>r. dayofweek (date r)) ` set df))"
proof -
  let ?ls = "pandas_levels df" and ?v = "dayofweek (date r)"
  from assms have ne: "df \<noteq> []" by auto
  have mem: "?v \<in> set ?ls \<longleftrightarrow> ?v \<noteq> Min ((\<lambda>r. dayofweek (date r)) ` set df)"
    using assms by (auto simp: pandas_levels_set[OF ne])
  have s: "sum_list (indicator_row ?ls ?v) = (if ?v \<in> set ?ls then 1 else 0)"
    by (rule indicator_row_sum[OF pandas_levels_distinct])
  show ?thesis
    unfolding one_hot_row_def
    using indicator_row_01[of _ ?ls ?v] indicator_row_exclusive[OF pandas_levels_distinct[of df]]
    by (auto simp: s mem)
qed

lemma polars_row_one_hot:
  assumes "r \<in> set df"
  shows "one_hot_row (indicator_row (polars_levels df) (weekday (date r))) (weekday (date r) = 1)"
proof -
  let ?ls = "polars_levels df" and ?v = "weekday (date r)"
  have s: "sum_list (indicator_row ?ls ?v) = (if ?v \<in> set ?ls then 1 else 0)"
    by (rule indicator_row_sum[OF polars_levels_distinct])
  show ?thesis
    unfolding one_hot_row_def
    using indicator_row_01[of _ ?ls ?v] indicator_row_exclusive[OF polars_levels_distinct[of df]] assms
    by (auto simp: s polars_levels_set)
qed

text \<open>
  Claim C3.  In every row of the feature-engineered table of either script, the values of the
  retained indicator columns are 0 or 1, no two of them are 1, their sum is at most 1, and
  the sum is 1 exactly when the date of the row does not fall on the baseline weekday; so
  the sum and the implicit indicator of the baseline add up to 1.  The baseline is the
  weekday whose column the script drops: the least weekday that occurs in the table in the
  pandas script, Monday in the polars script.
\<close>

theorem indicators_one_hot:
  fixes df :: "('a, 'z) sale_scheme list"
  shows "(\<forall>(r, vs) \<in> set (snd (pandas_features df)).
            length vs = length (fst (pandas_features df))
          \<and> one_hot_row vs (dayofweek (date r) = Min ((\<lambda>r. dayofweek (date r)) ` set df)))
       \<and> (\<forall>fe. polars_features df = Inr fe \<longrightarrow>
            (\<forall>(r, vs) \<in> set (snd fe).
               length vs = length (fst fe) \<and> one_hot_row vs (weekday (date r) = 1)))"
proof (intro conjI allI impI)
  show "\<forall>(r, vs) \<in> set (snd (pandas_features df)).
            length vs = length (fst (pandas_features df))
          \<and> one_hot_row vs (dayofweek (date r) = Min ((\<lambda>r. dayofweek (date r)) ` set df))"
    by (auto simp: pandas_features_eq pandas_row_one_hot)
next
  fix fe assume "polars_features df = Inr fe"
  then have fe: "fe = (map dummy_name (polars_levels df),
                map (\<lambda>r. (r, indicator_row (polars_levels df) (weekday (date r)))) df)"
    by (simp add: polars_features_eq split: if_splits)
  show "\<forall>(r, vs) \<in> set (snd fe). length vs = length (fst fe) \<and> one_hot_row vs (weekday (date r) = 1)"
    unfolding fe using polars_row_one_hot[of _ df] by auto
qed

theorem indicators_one_hot_witness:
  "pandas_features [\<lparr>product_id = 0, date = 20241, sales = 5 :: real\<rparr>,
                    \<lparr>product_id = 0, date = 20242, sales = 7\<rparr>]
     = ([''dow_1''], [(\<lparr>product_id = 0, date = 20241, sales = 5\<rparr>, [0]),
                      (\<lparr>product_id = 0, date = 20242, sales = 7\<rparr>, [1])])
   \<and> polars_features [\<lparr>product_id = 0, date = 20241, sales = 5 :: real\<rparr>,
                      \<lparr>product_id = 0, date = 20242, sales = 7\<rparr>]
     = Inr ([''dow_2''], [(\<lparr>product_id = 0, date = 20241, sales = 5\<rparr>, [0]),
                          (\<lparr>product_id = 0, date = 20242, sales = 7\<rparr>, [1])])
   \<and> dayofweek 20241 = 0 \<and> dayofweek 20242 = 1
   \<and> sum_list [0 :: real] + 1 = 1 \<and> sum_list [1 :: real] = 1"
proof -
  let ?df = "[\<lparr>product_id = 0, date = 20241, sales = 5 :: real\<rparr>,
              \<lparr>product_id = 0, date = 20242, sales = 7\<rparr>]"
  have e: "pandas_features ?df
     = ([''dow_1''], [(\<lparr>product_id = 0, date = 20241, sales = 5\<rparr>, [0]),
                      (\<lparr>product_id = 0, date = 20242, sales = 7\<rparr>, [1])])"
    by code_simp
  have p: "polars_features ?df
     = Inr ([''dow_2''], [(\<lparr>product_id = 0, date = 20241, sales = 5\<rparr>, [0]),
                          (\<lparr>product_id = 0, date = 20242, sales = 7\<rparr>, [1])])"
    by code_simp
  have d: "dayofweek 20241 = 0" "dayofweek 20242 = 1"
    by (simp_all add: dayofweek_def)
  have "one_hot_row [0] True \<and> one_hot_row [1] False"
    using indicators_one_hot[of ?df] unfolding e p by (simp add: d weekday_def)
  then show ?thesis
    using e p d by (simp add: one_hot_row_def)
qed

subsection \<open>Aggregation\<close>

lemma key_agg_group [simp]: "key (agg_group df k) = k"
  by (simp add: agg_group_def key_def Let_def)

lemma sales_agg_group:
  "sales (fst (agg_group df k)) = sum_list (map (\<lambda>r. sales (fst r)) (filter (\<lambda>r. key r = k) df))"
  by (simp add: agg_group_def Let_def)

lemma snd_agg_group:
  assumes "r \<in> set df" and "\<forall>r'\<in>set df. key r' = key r \<longrightarrow> snd r' = snd r"
  shows "snd (agg_group df (key r)) = snd r"
proof -
  let ?g = "filter (\<lambda>x. key x = key r) df"
  from assms(1) have "r \<in> set ?g" by simp
  then obtain x xs where g: "?g = x # xs" by (cases ?g) auto
  then have "x \<in> set ?g" by simp
  then have "x \<in> set df" "key x = key r" by simp_all
  with assms(2) have "snd x = snd r" by blast
  then show ?thesis by (simp add: agg_group_def Let_def g)
qed

lemma key_agg_comp [simp]: "key \<circ> agg_group df = id"
  by (rule ext) simp

lemma map_key_agg_comp: "map (key \<circ> agg_group df) ks = ks"
  by simp

lemma map_key_agg: "map key (map (agg_group df) ks) = ks"
  by simp

lemma pandas_agg_keys: "map key (pandas_groupby_agg df) = sort (remdups (map key df))"
  by (simp add: pandas_groupby_agg_def)

lemma aggregates_of_keys:
  assumes const: "\<forall>r\<in>set df. \<forall>r'\<in>set df. key r' = key r \<longrightarrow> snd r' = snd r"
    and out: "mset out = mset (map (agg_group df) (remdups (map key df)))"
  shows "aggregates df out"
proof -
  have mk: "mset (map key out) = mset (remdups (map key df))"
  proof -
    have "mset (map key out) = image_mset key (mset out)" by simp
    also have "\<dots> = mset (map (key \<circ> agg_group df) (remdups (map key df)))"
      unfolding out by (simp add: multiset.map_comp)
    finally show ?thesis by simp
  qed
  have d: "distinct (map key out)"
    using mset_eq_imp_distinct_iff[OF mk] by simp
  have "set (map key out) = set (remdups (map key df))"
    using mk by (rule mset_eq_setD)
  then have s: "set (map key out) = key ` set df"
    by simp
  have rows: "sales (fst row) = sum_list (map (\<lambda>r. sales (fst r)) (filter (\<lambda>r. key r = key row) df))
         \<and> (\<forall>r\<in>set df. key r = key row \<longrightarrow> snd r = snd row)" if "row \<in> set out" for row
  proof -
    have "set out = set (map (agg_group df) (remdups (map key df)))"
      using out by (rule mset_eq_setD)
    with that have "row \<in> agg_group df ` key ` set df"
      by (simp only: set_map set_remdups)
    then obtain r0 where r0: "r0 \<in> set df" and row: "row = agg_group df (key r0)"
      by blast
    have k: "key row = key r0" unfolding row by (rule key_agg_group)
    have c0: "\<forall>r'\<in>set df. key r' = key r0 \<longrightarrow> snd r' = snd r0"
      using const r0 by blast
    have sr: "snd row = snd r0"
      unfolding row using r0 c0 by (rule snd_agg_group)
    have "\<forall>r\<in>set df. key r = key row \<longrightarrow> snd r = snd row"
      unfolding k sr by (rule c0)
    moreover have "sales (fst row) = sum_list (map (\<lambda>r. sales (fst r)) (filter (\<lambda>r. key r = key row) df))"
      unfolding k unfolding row by (rule sales_agg_group)
    ultimately show ?thesis by simp
  qed
  then have "\<forall>row\<in>set out.
      sales (fst row) = sum_list (map (\<lambda>r. sales (fst r)) (filter (\<lambda>r. key r = key row) df))
         \<and> (\<forall>r\<in>set df. key r = key row \<longrightarrow> snd r = snd row)"
    by (rule ballI)
  with d s show ?thesis
    unfolding aggregates_def by (intro conjI)
qed

lemma pandas_agg_mset:
  "mset (pandas_groupby_agg df) = mset (map (agg_group df) (remdups (map key df)))"
  by (simp add: pandas_groupby_agg_def)

lemma polars_agg_mset:
  "\<forall>xs. mset (order xs) = mset xs \<Longrightarrow>
   mset (polars_group_by_agg order df) = mset (map (agg_group df) (remdups (map key df)))"
  by (simp add: polars_group_by_agg_def)

lemma feature_rows_const:
  "\<forall>r\<in>set (map (\<lambda>r. (r, h (date r))) df). \<forall>r'\<in>set (map (\<lambda>r. (r, h (date r))) df).
      key r' = key r \<longrightarrow> snd r' = snd r"
  by (auto simp: key_def)

text \<open>
  Claim C4.  On the feature-engineered table of either script, the aggregation step returns
  exactly one row for each pair of \<open>product_id\<close> and \<open>date\<close> that occurs; the sales of that
  row are the sum of the sales of the rows of the pair, and its indicator values are those
  that all rows of the pair have.  For the polars script this holds whatever order the
  engine gives to the groups.
\<close>

theorem aggregation_correct:
  fixes df :: "(('a::comm_monoid_add), 'z) sale_scheme list"
  shows "aggregates (snd (pandas_features df)) (pandas_groupby_agg (snd (pandas_features df)))
       \<and> (\<forall>fe. polars_features df = Inr fe \<longrightarrow> (\<forall>xs. mset (order xs) = mset xs) \<longrightarrow>
            aggregates (snd fe) (polars_group_by_agg order (snd fe)))"
proof (intro conjI allI impI)
  show "aggregates (snd (pandas_features df)) (pandas_groupby_agg (snd (pandas_features df)))"
    unfolding pandas_features_eq snd_conv
    by (intro aggregates_of_keys feature_rows_const pandas_agg_mset)
next
  fix fe assume "polars_features df = Inr fe" and perm: "\<forall>xs. mset (order xs) = mset xs"
  then have fe: "snd fe = map (\<lambda>r. (r, indicator_row (polars_levels df) (weekday (date r)))) df"
    by (auto simp add: polars_features_eq split: if_splits)
  show "aggregates (snd fe) (polars_group_by_agg order (snd fe))"
    unfolding fe
    by (intro aggregates_of_keys feature_rows_const polars_agg_mset perm)
qed

theorem aggregation_correct_witness:
  "pandas_groupby_agg (snd (pandas_features
      [\<lparr>product_id = 0, date = 20241, sales = 5 :: real\<rparr>,
       \<lparr>product_id = 0, date = 20242, sales = 1\<rparr>,
       \<lparr>product_id = 0, date = 20241, sales = 7\<rparr>]))
     = [(\<lparr>product_id = 0, date = 20241, sales = 12\<rparr>, [0]),
        (\<lparr>product_id = 0, date = 20242, sales = 1\<rparr>, [1])]
   \<and> distinct [(0 :: nat, 20241 :: int), (0, 20242)]"
proof -
  let ?df = "[\<lparr>product_id = 0, date = 20241, sales = 5 :: real\<rparr>,
       \<lparr>product_id = 0, date = 20242, sales = 1\<rparr>,
       \<lparr>product_id = 0, date = 20241, sales = 7\<rparr>]"
  have e: "pandas_groupby_agg (snd (pandas_features ?df))
     = [(\<lparr>product_id = 0, date = 20241, sales = 12\<rparr>, [0]),
        (\<lparr>product_id = 0, date = 20242, sales = 1\<rparr>, [1])]"
    by code_simp
  have "aggregates (snd (pandas_features ?df)) (pandas_groupby_agg (snd (pandas_features ?df)))"
    using aggregation_correct[of ?df rev] by simp
  then have "distinct (map key (pandas_groupby_agg (snd (pandas_features ?df))))"
    by (simp only: aggregates_def)
  then show ?thesis
    unfolding e by (simp add: key_def)
qed

subsection \<open>Aggregating a table that has one row for each key\<close>

lemma filter_key_single:
  "distinct (map f xs) \<Longrightarrow> x \<in> set xs \<Longrightarrow> filter (\<lambda>y. f y = f x) xs = [x]"
proof (induction xs)
  case Nil
  then show ?case by simp
next
  case (Cons a xs)
  show ?case
  proof (cases "a = x")
    case True
    have "f x \<notin> f ` set xs" using Cons.prems(1) True by simp
    then have "\<forall>y\<in>set xs. f y \<noteq> f x" by (auto simp: image_iff)
    then have "filter (\<lambda>y. f y = f x) xs = []"
      by (simp add: filter_empty_conv)
    then show ?thesis using True by simp
  next
    case False
    then have "x \<in> set xs" using Cons.prems(2) by simp
    moreover have "f a \<noteq> f x"
      using Cons.prems(1) \<open>x \<in> set xs\<close> by auto
    ultimately show ?thesis using Cons by simp
  qed
qed

lemma agg_group_single:
  fixes G :: "('a::comm_monoid_add) sale frame"
  assumes "distinct (map key G)" "r \<in> set G"
  shows "agg_group G (key r) = r"
proof -
  have "filter (\<lambda>y. key y = key r) G = [r]"
    using assms by (rule filter_key_single)
  then show ?thesis
    by (cases r) (simp add: agg_group_def Let_def key_def)
qed

lemma agg_groups_id:
  fixes G :: "('a::comm_monoid_add) sale frame"
  assumes "distinct (map key G)"
  shows "map (agg_group G \<circ> key) G = G"
  using agg_group_single[OF assms] by (simp add: map_idI)

lemma agg_groups_mset_id:
  fixes G :: "('a::comm_monoid_add) sale frame"
  assumes "distinct (map key G)"
  shows "image_mset (agg_group G \<circ> key) (mset G) = mset G"
  using arg_cong[OF agg_groups_id[OF assms], of mset] by simp

lemma pandas_agg_sorted_id:
  fixes G :: "('a::comm_monoid_add) sale frame"
  assumes "distinct (map key G)" "sorted (map key G)"
  shows "pandas_groupby_agg G = G"
proof -
  have "sort (remdups (map key G)) = map key G"
    using assms by (simp add: distinct_remdups_id sort_key_id_if_sorted)
  then show ?thesis
    by (simp add: pandas_groupby_agg_def agg_groups_id[OF assms(1)])
qed

lemma pandas_agg_distinct_mset:
  fixes G :: "('a::comm_monoid_add) sale frame"
  assumes "distinct (map key G)"
  shows "mset (pandas_groupby_agg G) = mset G"
  using assms agg_groups_mset_id[OF assms]
  by (simp add: pandas_agg_mset distinct_remdups_id multiset.map_comp)

lemma polars_agg_distinct_mset:
  fixes G :: "('a::comm_monoid_add) sale frame"
  assumes "\<forall>xs. mset (order xs) = mset xs" "distinct (map key G)"
  shows "mset (polars_group_by_agg order G) = mset G"
  using assms agg_groups_mset_id[OF assms(2)]
  by (simp add: polars_agg_mset distinct_remdups_id multiset.map_comp)

lemma polars_agg_keys_distinct:
  assumes "\<forall>xs. mset (order xs) = mset xs"
  shows "distinct (map key (polars_group_by_agg order df))"
proof -
  have "mset (map key (polars_group_by_agg order df))
      = image_mset key (mset (map (agg_group df) (remdups (map key df))))"
    using assms by (simp add: polars_group_by_agg_def)
  also have "\<dots> = mset (remdups (map key df))"
    by (simp add: multiset.map_comp)
  finally have "mset (map key (polars_group_by_agg order df)) = mset (remdups (map key df))" .
  from mset_eq_imp_distinct_iff[OF this] show ?thesis
    by simp
qed

text \<open>
  Claim C8.  Aggregating a table that has one row for each pair of \<open>product_id\<close> and
  \<open>date\<close> returns the same rows.  The pandas script returns them in the order of the keys,
  so a table in that order, such as the result of the aggregation itself, is returned as it
  is; the polars script returns them in the order the engine picks.
\<close>

theorem aggregation_idempotent:
  fixes G :: "('a::comm_monoid_add) sale frame" and df :: "('a, 'z) sale_scheme frame"
  shows "(distinct (map key G) \<longrightarrow> mset (pandas_groupby_agg G) = mset G)
       \<and> (distinct (map key G) \<longrightarrow> sorted (map key G) \<longrightarrow> pandas_groupby_agg G = G)
       \<and> pandas_groupby_agg (pandas_groupby_agg df) = pandas_groupby_agg df
       \<and> ((\<forall>xs. mset (order xs) = mset xs) \<longrightarrow>
            (distinct (map key G) \<longrightarrow> mset (polars_group_by_agg order G) = mset G)
          \<and> mset (polars_group_by_agg order (polars_group_by_agg order df))
              = mset (polars_group_by_agg order df))"
proof (intro conjI impI)
  assume d: "distinct (map key G)"
  then show "mset (pandas_groupby_agg G) = mset G"
    by (rule pandas_agg_distinct_mset)
  assume "sorted (map key G)"
  with d show "pandas_groupby_agg G = G" by (rule pandas_agg_sorted_id)
next
  show "pandas_groupby_agg (pandas_groupby_agg df) = pandas_groupby_agg df"
    by (rule pandas_agg_sorted_id) (simp_all add: pandas_agg_keys)
next
  assume perm: "\<forall>xs. mset (order xs) = mset xs" and d: "distinct (map key G)"
  then show "mset (polars_group_by_agg order G) = mset G"
    by (rule polars_agg_distinct_mset)
next
  assume perm: "\<forall>xs. mset (order xs) = mset xs"
  show "mset (polars_group_by_agg order (polars_group_by_agg order df))
              = mset (polars_group_by_agg order df)"
    using perm polars_agg_keys_distinct[OF perm] by (rule polars_agg_distinct_mset)
qed

theorem aggregation_idempotent_witness:
  "mset (pandas_groupby_agg [(\<lparr>product_id = 0, date = 20242, sales = 1 :: real\<rparr>, [1]),
                             (\<lparr>product_id = 0, date = 20241, sales = 12\<rparr>, [0])])
     = mset [(\<lparr>product_id = 0, date = 20242, sales = 1 :: real\<rparr>, [1]),
             (\<lparr>product_id = 0, date = 20241, sales = 12\<rparr>, [0])]
   \<and> mset (polars_group_by_agg rev [(\<lparr>product_id = 0, date = 20242, sales = 1 :: real\<rparr>, [1]),
                                    (\<lparr>product_id = 0, date = 20241, sales = 12\<rparr>, [0])])
     = mset [(\<lparr>product_id = 0, date = 20242, sales = 1 :: real\<rparr>, [1]),
             (\<lparr>product_id = 0, date = 20241, sales = 12\<rparr>, [0])]
   \<and> pandas_groupby_agg [(\<lparr>product_id = 0, date = 20241, sales = 12 :: real\<rparr>, [0]),
                         (\<lparr>product_id = 0, date = 20242, sales = 1\<rparr>, [1])]
     = [(\<lparr>product_id = 0, date = 20241, sales = 12 :: real\<rparr>, [0]),
        (\<lparr>product_id = 0, date = 20242, sales = 1\<rparr>, [1])]"
proof -
  let ?G = "[(\<lparr>product_id = 0, date = 20242, sales = 1 :: real\<rparr>, [1 :: real]),
             (\<lparr>product_id = 0, date = 20241, sales = 12\<rparr>, [0])]"
  let ?H = "[(\<lparr>product_id = 0, date = 20241, sales = 12 :: real\<rparr>, [0 :: real]),
             (\<lparr>product_id = 0, date = 20242, sales = 1\<rparr>, [1])]"
  have dG: "distinct (map key ?G)" and dH: "distinct (map key ?H)" and sH: "sorted (map key ?H)"
    by (simp_all add: key_def)
  have p: "\<forall>xs :: real sale frame. mset (rev xs) = mset xs" by simp
  from aggregation_idempotent[of ?G ?G rev] dG p
  have 1: "mset (pandas_groupby_agg ?G) = mset ?G" and 2: "mset (polars_group_by_agg rev ?G) = mset ?G"
    by blast+
  from aggregation_idempotent[of ?H ?H rev] dH sH
  have 3: "pandas_groupby_agg ?H = ?H" by blast
  from 1 2 3 show ?thesis by blast
qed

subsection \<open>The products of the aggregated table\<close>




lemma feature_frame_products:
  "(\<lambda>r. product_id (fst r)) ` set (map (\<lambda>r. (r, h r)) df) = product_id ` set df"
  by (simp add: image_image)


subsection \<open>The models of the pandas script\<close>





lemma row_products_pandas [simp]: "row_products (pandas_coef_row (p, m)) = [p]"
  by (simp add: row_products_def pandas_coef_row_def o_def)

lemma row_products_polars [simp]: "row_products (polars_coef_row (p, m)) = [p]"
  by (simp add: row_products_def polars_coef_row_def o_def)

subsection \<open>The models of the polars script\<close>






subsection \<open>The polars script as a whole\<close>









subsection \<open>The coefficient table\<close>






subsection \<open>The rows that a model is fitted on\<close>









subsection \<open>The two scripts on a table with a Monday\<close>





subsection \<open>The test for a constant column\<close>




subsection \<open>The inputs of the fit\<close>



subsection \<open>Agreement of the two scripts\<close>





end
